theory Spec2Isabelle
  imports Main
begin

section \<open>Data model of \<^verbatim>\<open>fvalues/f.py\<close>\<close>

text \<open>
  Exceptions the code can raise. \<^verbatim>\<open>AssertionError\<close> comes from the three
  \<^verbatim>\<open>assert\<close> statements, \<^verbatim>\<open>IndexError\<close> from \<^verbatim>\<open>parts[index]\<close>,
  \<^verbatim>\<open>TypeError\<close> from the explicit \<^verbatim>\<open>raise\<close> in \<^verbatim>\<open>F.__new__\<close>,
  \<^verbatim>\<open>ValueError\<close> from the unpacking \<^verbatim>\<open>[arg] = ex.node.args\<close>, and
  \<^verbatim>\<open>Raised\<close> is any exception thrown by the evaluated user expression.
\<close>

datatype error = AssertionError | IndexError | TypeError | ValueError | Raised string

text \<open>
  A Python \<^verbatim>\<open>str\<close> object is either a plain string or an instance of the subclass
  \<^verbatim>\<open>F\<close>, which carries \<^verbatim>\<open>parts\<close>. A part is a \<^verbatim>\<open>str\<close> (plain or \<^verbatim>\<open>F\<close>)
  or an \<^verbatim>\<open>FValue(source, value, formatted)\<close>. The \<^verbatim>\<open>value\<close> of an
  \<^verbatim>\<open>FValue\<close> is any Python object; the code only ever asks whether it is an
  \<^verbatim>\<open>F\<close>, so the other objects are kept as a few atoms.
\<close>

datatype fstr = F (F_str: string) (parts: "part list")
  and pystr = Plain string | Prov fstr
  and part = Str pystr | FValue string pyval pystr
  and pyval = VNone | VInt int | VStr pystr

text \<open>\<^verbatim>\<open>str(x)\<close> for a string object.\<close>

fun py_str :: "pystr \<Rightarrow> string" where
  "py_str (Plain s) = s"
| "py_str (Prov f) = F_str f"

text \<open>\<^verbatim>\<open>part.formatted if isinstance(part, FValue) else part\<close>.\<close>

fun part_str :: "part \<Rightarrow> pystr" where
  "part_str (Str s) = s"
| "part_str (FValue source v formatted) = formatted"

definition part_text :: "part \<Rightarrow> string" where
  "part_text p = py_str (part_str p)"

section \<open>Construction with explicit parts\<close>

text \<open>
  The branch \<^verbatim>\<open>if parts is not None\<close> of \<^verbatim>\<open>F.__new__\<close>: join the displayed
  text of the parts, assert that it equals \<^verbatim>\<open>s\<close>, build the instance.
\<close>

definition F_parts :: "string \<Rightarrow> part list \<Rightarrow> error + fstr" where
  "F_parts s ps =
     (let expected = concat (map part_text ps)
      in if s = expected then Inr (F s ps) else Inl AssertionError)"

text \<open>Invariant I1 of a provenance string.\<close>

definition I1 :: "fstr \<Rightarrow> bool" where
  "I1 f = (F_str f = concat (map part_text (parts f)))"

section \<open>Syntax nodes and the evaluation context\<close>

datatype const = CStr string | CInt int | CNone

datatype operator = Add | Sub | Mult

text \<open>
  The \<^verbatim>\<open>ast\<close> expressions the code tells apart, and \<^verbatim>\<open>Name\<close> for the rest.
  \<^verbatim>\<open>FormattedValue value conversion format_spec\<close>; \<^verbatim>\<open>Call func args\<close>.
\<close>

datatype expr =
    Constant const
  | JoinedStr "expr list"
  | FormattedValue expr int "expr option"
  | Call expr "expr list"
  | BinOp expr operator expr
  | Name string

text \<open>
  What \<^verbatim>\<open>executing.Source.executing(frame).node\<close> can be: an expression, the
  statement \<^verbatim>\<open>AugAssign target op value\<close>, or some other statement.
\<close>

datatype node = Expr expr | AugAssign expr operator expr | OtherStmt

text \<open>
  The collaborators of the decomposer, for one frame: \<^verbatim>\<open>ast.unparse\<close>,
  \<^verbatim>\<open>eval(source, frame.f_globals, frame.f_locals)\<close>, and the evaluation of the
  compiled \<^verbatim>\<open>ast.Expression(ast.JoinedStr(values=[node]))\<close> in the same frame, which
  always is a plain string when it returns. The frame is the frame as it is when the
  decomposer runs: an evaluation is a function of the evaluated text, and what an
  evaluated expression does to later evaluations is not modelled.
\<close>

record frame =
  ast_unparse :: "expr \<Rightarrow> string"
  eval_source :: "string \<Rightarrow> error + pyval"
  eval_joined :: "expr \<Rightarrow> error + string"

section \<open>\<^verbatim>\<open>F._parts_from_node\<close>\<close>

fun parts_from_node :: "frame \<Rightarrow> expr \<Rightarrow> pystr option \<Rightarrow> error + part list"
  and parts_from_values :: "frame \<Rightarrow> expr list \<Rightarrow> error + part list" where
  "parts_from_node fr (Constant c) v =
     (case c of CStr s \<Rightarrow> Inr [Str (Plain s)] | _ \<Rightarrow> Inl AssertionError)"
| "parts_from_node fr (JoinedStr vals) v = parts_from_values fr vals"
| "parts_from_node fr (FormattedValue e conv spec) v =
     (let source = ast_unparse fr e in
      case eval_source fr source of
        Inl err \<Rightarrow> Inl err
      | Inr val \<Rightarrow>
         (case eval_joined fr (JoinedStr [FormattedValue e conv spec]) of
            Inl err \<Rightarrow> Inl err
          | Inr formatted \<Rightarrow> Inr [FValue source val (Plain formatted)]))"
| "parts_from_node fr nd v =
     (case v of
        None \<Rightarrow> Inl AssertionError
      | Some s \<Rightarrow> Inr [FValue (ast_unparse fr nd) (VStr s) s])"
| "parts_from_values fr [] = Inr []"
| "parts_from_values fr (nd # nds) =
     (case parts_from_node fr nd None of
        Inl err \<Rightarrow> Inl err
      | Inr ps \<Rightarrow>
         (case parts_from_values fr nds of
            Inl err \<Rightarrow> Inl err
          | Inr qs \<Rightarrow> Inr (ps @ qs)))"

section \<open>\<^verbatim>\<open>F.__new__\<close>\<close>

text \<open>
  \<^verbatim>\<open>warnings.warn(message)\<close> is called with a message only, so the warning has
  Python's default category \<^verbatim>\<open>UserWarning\<close>. \<^verbatim>\<open>NoSourceAvailableWarning\<close> is the
  category that \<^verbatim>\<open>tests/test_f.py\<close> imports from the package; \<^verbatim>\<open>f.py\<close> neither
  defines nor passes it.
\<close>

datatype category = UserWarning | NoSourceAvailableWarning

type_synonym warning = "category \<times> string"

text \<open>
  The constructor, with the warnings it emits. \<open>nd\<close> is
  \<^verbatim>\<open>executing.Source.executing(frame).node\<close> for the caller's frame \<open>fr\<close>;
  \<open>ps\<close> is the argument \<^verbatim>\<open>parts\<close>.
\<close>

definition F_new :: "frame \<Rightarrow> node option \<Rightarrow> pystr \<Rightarrow> part list option
    \<Rightarrow> warning list \<times> (error + fstr)" where
  "F_new fr nd s ps =
     (case ps of
        Some given \<Rightarrow> ([], F_parts (py_str s) given)
      | None \<Rightarrow>
         (case nd of
            None \<Rightarrow>
              ([(UserWarning, ''Couldn't get source node of F() call'')],
               F_parts (py_str s) [Str s])
          | Some (Expr (Call func args)) \<Rightarrow>
             (case args of
                [arg] \<Rightarrow>
                  ([], case parts_from_node fr arg (Some s) of
                         Inl err \<Rightarrow> Inl err
                       | Inr qs \<Rightarrow> F_parts (py_str s) qs)
              | _ \<Rightarrow> ([], Inl ValueError))
          | Some _ \<Rightarrow> ([], Inl TypeError)))"

section \<open>\<^verbatim>\<open>F.flatten\<close>\<close>

fun flatten :: "fstr \<Rightarrow> error + fstr"
  and flatten_parts :: "part list \<Rightarrow> error + part list" where
  "flatten (F s ps) =
     (case flatten_parts ps of
        Inl err \<Rightarrow> Inl err
      | Inr qs \<Rightarrow> F_parts s qs)"
| "flatten_parts [] = Inr []"
| "flatten_parts (FValue source (VStr (Prov f)) formatted # rest) =
     (case flatten f of
        Inl err \<Rightarrow> Inl err
      | Inr g \<Rightarrow>
         (case flatten_parts rest of
            Inl err \<Rightarrow> Inl err
          | Inr qs \<Rightarrow> Inr (parts g @ qs)))"
| "flatten_parts (Str (Prov f) # rest) =
     (case flatten f of
        Inl err \<Rightarrow> Inl err
      | Inr g \<Rightarrow>
         (case flatten_parts rest of
            Inl err \<Rightarrow> Inl err
          | Inr qs \<Rightarrow> Inr (parts g @ qs)))"
| "flatten_parts (p # rest) =
     (case flatten_parts rest of
        Inl err \<Rightarrow> Inl err
      | Inr qs \<Rightarrow> Inr (p # qs))"

section \<open>The strip family\<close>

text \<open>
  \<^verbatim>\<open>*args\<close> of \<^verbatim>\<open>strip\<close>, \<^verbatim>\<open>lstrip\<close>, \<^verbatim>\<open>rstrip\<close>: nothing (or \<^verbatim>\<open>None\<close>),
  which trims whitespace, or a string of the characters to trim. Characters are the
  code points below 256; the whitespace among them is what \<^verbatim>\<open>str.isspace\<close> accepts.
\<close>

definition whitespace :: "char list" where
  "whitespace = [CHR 0x09, CHR 0x0A, CHR 0x0B, CHR 0x0C, CHR 0x0D,
                 CHR 0x1C, CHR 0x1D, CHR 0x1E, CHR 0x1F, CHR 0x20, CHR 0x85, CHR 0xA0]"

fun trimmed :: "string option \<Rightarrow> char \<Rightarrow> bool" where
  "trimmed None c = (c \<in> set whitespace)"
| "trimmed (Some chars) c = (c \<in> set chars)"

text \<open>The method name handed to \<^verbatim>\<open>getattr\<close>.\<close>

datatype meth = Lstrip | Rstrip

text \<open>The built-in \<^verbatim>\<open>str.lstrip\<close> and \<^verbatim>\<open>str.rstrip\<close>.\<close>

fun str_method :: "meth \<Rightarrow> string option \<Rightarrow> string \<Rightarrow> string" where
  "str_method Lstrip a s = dropWhile (trimmed a) s"
| "str_method Rstrip a s = rev (dropWhile (trimmed a) (rev s))"

text \<open>
  List indexing with a Python index: a negative index counts from the end, and an
  index outside the list raises \<^verbatim>\<open>IndexError\<close> (\<open>None\<close> here).
\<close>

definition py_index :: "'a list \<Rightarrow> int \<Rightarrow> nat option" where
  "py_index xs i =
     (let n = int (length xs); j = (if i < 0 then i + n else i)
      in if 0 \<le> j \<and> j < n then Some (nat j) else None)"

text \<open>
  The part rebuilt around the trimmed string:
  \<^verbatim>\<open>FValue(part.source, part.value, s)\<close> for an \<^verbatim>\<open>FValue\<close>, else \<^verbatim>\<open>s\<close>.
\<close>

fun replace_str :: "part \<Rightarrow> pystr \<Rightarrow> part" where
  "replace_str (FValue source v formatted) s = FValue source v s"
| "replace_str (Str old) s = Str s"

text \<open>
  \<^verbatim>\<open>F._strip(index, method, *args)\<close>, its \<^verbatim>\<open>while True\<close> loop over the list
  \<^verbatim>\<open>parts\<close>, and the call \<^verbatim>\<open>getattr(s, method)(*args)\<close>: on a plain string the
  built-in method, on an \<^verbatim>\<open>F\<close> the overriding \<^verbatim>\<open>F.lstrip\<close> or \<^verbatim>\<open>F.rstrip\<close>,
  which is \<^verbatim>\<open>_strip(0, "lstrip", *args)\<close> or \<^verbatim>\<open>_strip(-1, "rstrip", *args)\<close>.
  The final text comes from \<^verbatim>\<open>getattr(super(), method)(*args)\<close>, the built-in.
\<close>

function F_strip :: "int \<Rightarrow> meth \<Rightarrow> string option \<Rightarrow> fstr \<Rightarrow> error + fstr"
  and strip_loop :: "int \<Rightarrow> meth \<Rightarrow> string option \<Rightarrow> part list \<Rightarrow> error + part list"
  and call_method :: "meth \<Rightarrow> string option \<Rightarrow> pystr \<Rightarrow> error + pystr" where
  "F_strip index m a (F t ps) =
     (case strip_loop index m a ps of
        Inl err \<Rightarrow> Inl err
      | Inr qs \<Rightarrow> F_parts (str_method m a t) qs)"
| "strip_loop index m a ps =
     (case py_index ps index of
        None \<Rightarrow> Inl IndexError
      | Some j \<Rightarrow>
         (case call_method m a (part_str (ps ! j)) of
            Inl err \<Rightarrow> Inl err
          | Inr s \<Rightarrow>
              if py_str s \<noteq> []
              then Inr (ps[j := replace_str (ps ! j) s])
              else strip_loop index m a (take j ps @ drop (Suc j) ps)))"
| "call_method m a (Plain x) = Inr (Plain (str_method m a x))"
| "call_method m a (Prov f) =
     (case (case m of Lstrip \<Rightarrow> F_strip 0 Lstrip a f | Rstrip \<Rightarrow> F_strip (- 1) Rstrip a f) of
        Inl err \<Rightarrow> Inl err
      | Inr g \<Rightarrow> Inr (Prov g))"
  by pat_completeness auto
termination
proof (relation "measure (\<lambda>x. case x of
          Inl (i, m, a, f) \<Rightarrow> size f
        | Inr (Inl (i, m, a, ps)) \<Rightarrow> size_list size ps
        | Inr (Inr (m, a, s)) \<Rightarrow> size s)", goal_cases)
  case 1
  show ?case by simp
next
  case (2 index m a t ps)
  show ?case by simp
next
  case (3 index m a ps j)
  have nth: "k < length qs \<Longrightarrow> size (qs ! k) < Suc (size_list size qs)"
    for qs :: "part list" and k
  proof (induction qs arbitrary: k)
    case Nil
    then show ?case by simp
  next
    case (Cons q qs)
    show ?case
    proof (cases k)
      case 0
      then show ?thesis by simp
    next
      case (Suc n)
      with Cons.prems have "n < length qs" by simp
      then have "size (qs ! n) < Suc (size_list size qs)" by (rule Cons.IH)
      with Suc show ?thesis by simp
    qed
  qed
  from 3 have "j < length ps"
    by (auto simp: py_index_def Let_def split: if_splits)
  then have "size (ps ! j) < Suc (size_list size ps)" by (rule nth)
  moreover have "size (part_str (ps ! j)) < size (ps ! j)"
    by (cases "ps ! j") auto
  ultimately show ?case by simp
next
  case (4 index m a ps j s)
  have del: "k < length qs \<Longrightarrow>
      size_list size (take k qs @ drop (Suc k) qs) < size_list size qs"
    for qs :: "part list" and k
  proof (induction qs arbitrary: k)
    case Nil
    then show ?case by simp
  next
    case (Cons q qs)
    show ?case
    proof (cases k)
      case 0
      then show ?thesis by simp
    next
      case (Suc n)
      with Cons.prems have "n < length qs" by simp
      then have "size_list size (take n qs @ drop (Suc n) qs) < size_list size qs"
        by (rule Cons.IH)
      with Suc show ?thesis by simp
    qed
  qed
  from 4 have "j < length ps"
    by (auto simp: py_index_def Let_def split: if_splits)
  then have "size_list size (take j ps @ drop (Suc j) ps) < size_list size ps"
    by (rule del)
  then show ?case by simp
next
  case (5 m a f)
  show ?case by simp
next
  case (6 m a f)
  show ?case by simp
qed

declare strip_loop.simps [simp del]

definition lstrip :: "string option \<Rightarrow> fstr \<Rightarrow> error + fstr" where
  "lstrip a f = F_strip 0 Lstrip a f"

definition rstrip :: "string option \<Rightarrow> fstr \<Rightarrow> error + fstr" where
  "rstrip a f = F_strip (- 1) Rstrip a f"

text \<open>\<^verbatim>\<open>F.strip\<close>: \<^verbatim>\<open>self.lstrip(*args).rstrip(*args)\<close>.\<close>

definition strip :: "string option \<Rightarrow> fstr \<Rightarrow> error + fstr" where
  "strip a f = (case lstrip a f of Inl err \<Rightarrow> Inl err | Inr g \<Rightarrow> rstrip a g)"

section \<open>Concatenation\<close>

text \<open>
  The operand nodes of the addition that \<^verbatim>\<open>F._add\<close> looks for: an
  \<^verbatim>\<open>ast.BinOp\<close> or \<^verbatim>\<open>ast.AugAssign\<close> whose operator is \<^verbatim>\<open>ast.Add\<close>.
\<close>

fun add_operands :: "node option \<Rightarrow> (expr \<times> expr) option" where
  "add_operands (Some (Expr (BinOp l Add r))) = Some (l, r)"
| "add_operands (Some (AugAssign target Add v)) = Some (target, v)"
| "add_operands nd = None"

text \<open>\<^verbatim>\<open>parts = (self, other) if is_left else (other, self)\<close>: left operand, right operand.\<close>

definition operands :: "fstr \<Rightarrow> pystr \<Rightarrow> bool \<Rightarrow> pystr \<times> pystr" where
  "operands self other is_left = (if is_left then (Prov self, other) else (other, Prov self))"

text \<open>
  \<^verbatim>\<open>F._add(self, other, is_left)\<close>; \<open>fr\<close> and \<open>nd\<close> are the frame two levels up
  and the node executing there.
\<close>

definition F_add :: "frame \<Rightarrow> node option \<Rightarrow> fstr \<Rightarrow> pystr \<Rightarrow> bool \<Rightarrow> error + fstr" where
  "F_add fr nd self other is_left =
     (let (p0, p1) = operands self other is_left;
          v = py_str p0 @ py_str p1
      in case add_operands nd of
           Some (left_node, right_node) \<Rightarrow>
            (case parts_from_node fr left_node (Some p0) of
               Inl err \<Rightarrow> Inl err
             | Inr left_parts \<Rightarrow>
                (case parts_from_node fr right_node (Some p1) of
                   Inl err \<Rightarrow> Inl err
                 | Inr right_parts \<Rightarrow> F_parts v (left_parts @ right_parts)))
         | None \<Rightarrow> F_parts v [Str p0, Str p1])"

text \<open>\<^verbatim>\<open>F.__add__\<close> and \<^verbatim>\<open>F.__radd__\<close>.\<close>

definition F_dunder_add :: "frame \<Rightarrow> node option \<Rightarrow> fstr \<Rightarrow> pystr \<Rightarrow> error + fstr" where
  "F_dunder_add fr nd self other = F_add fr nd self other True"

definition F_dunder_radd :: "frame \<Rightarrow> node option \<Rightarrow> fstr \<Rightarrow> pystr \<Rightarrow> error + fstr" where
  "F_dunder_radd fr nd self other = F_add fr nd self other False"

text \<open>\<^verbatim>\<open>isinstance(ex.node, ast.Call)\<close>, the guard of \<^verbatim>\<open>F.__new__\<close>.\<close>

fun is_call :: "node \<Rightarrow> bool" where
  "is_call (Expr (Call func args)) = True"
| "is_call nd = False"

text \<open>
  The parts \<^verbatim>\<open>flatten\<close> replaces: an \<^verbatim>\<open>FValue\<close> whose value is an \<^verbatim>\<open>F\<close>, and
  a part that is itself an \<^verbatim>\<open>F\<close>.
\<close>

fun nested :: "part \<Rightarrow> bool" where
  "nested (FValue source (VStr (Prov f)) formatted) = True"
| "nested (Str (Prov f)) = True"
| "nested p = False"

text \<open>A part whose string is a plain \<^verbatim>\<open>str\<close>, not an \<^verbatim>\<open>F\<close>.\<close>

fun plain_part :: "part \<Rightarrow> bool" where
  "plain_part (Str (Plain x)) = True"
| "plain_part (FValue source v (Plain x)) = True"
| "plain_part p = False"

section \<open>Example inputs\<close>

text \<open>
  A frame in which no name is bound: every evaluation raises. \<^verbatim>\<open>ast.unparse\<close> of a
  name is the name.
\<close>

definition empty_frame :: frame where
  "empty_frame =
     \<lparr>ast_unparse = (\<lambda>e. case e of Name x \<Rightarrow> x | _ \<Rightarrow> ''<expr>''),
      eval_source = (\<lambda>src. Inl (Raised ''NameError'')),
      eval_joined = (\<lambda>e. Inl (Raised ''NameError''))\<rparr>"

text \<open>
  \<^verbatim>\<open>F(f" {space} hello {space} ")\<close> with \<^verbatim>\<open>space = " "\<close>, from
  \<^verbatim>\<open>test_strip\<close>.
\<close>

definition ex_spaced :: fstr where
  "ex_spaced =
     F ''   hello   ''
       [Str (Plain '' ''), FValue ''space'' (VStr (Plain '' '')) (Plain '' ''),
        Str (Plain '' hello ''), FValue ''space'' (VStr (Plain '' '')) (Plain '' ''),
        Str (Plain '' '')]"

text \<open>What \<^verbatim>\<open>lstrip()\<close>, \<^verbatim>\<open>rstrip()\<close> and \<^verbatim>\<open>strip()\<close> make of it.\<close>

definition ex_spaced_lstrip :: fstr where
  "ex_spaced_lstrip =
     F ''hello   ''
       [Str (Plain ''hello ''), FValue ''space'' (VStr (Plain '' '')) (Plain '' ''),
        Str (Plain '' '')]"

definition ex_spaced_rstrip :: fstr where
  "ex_spaced_rstrip =
     F ''   hello''
       [Str (Plain '' ''), FValue ''space'' (VStr (Plain '' '')) (Plain '' ''),
        Str (Plain '' hello'')]"

definition ex_spaced_strip :: fstr where
  "ex_spaced_strip = F ''hello'' [Str (Plain ''hello'')]"

text \<open>\<^verbatim>\<open>F(f"{x}b ")\<close> with \<^verbatim>\<open>x = " a"\<close>, as in \<^verbatim>\<open>test_strip\<close>.\<close>

definition ex_ab :: fstr where
  "ex_ab = F '' ab '' [FValue ''x'' (VStr (Plain '' a'')) (Plain '' a''), Str (Plain ''b '')]"

text \<open>What \<^verbatim>\<open>lstrip()\<close>, \<^verbatim>\<open>rstrip()\<close> and \<^verbatim>\<open>strip()\<close> make of it.\<close>

definition ex_ab_lstrip :: fstr where
  "ex_ab_lstrip = F ''ab '' [FValue ''x'' (VStr (Plain '' a'')) (Plain ''a''), Str (Plain ''b '')]"

definition ex_ab_rstrip :: fstr where
  "ex_ab_rstrip = F '' ab'' [FValue ''x'' (VStr (Plain '' a'')) (Plain '' a''), Str (Plain ''b'')]"

definition ex_ab_strip :: fstr where
  "ex_ab_strip = F ''ab'' [FValue ''x'' (VStr (Plain '' a'')) (Plain ''a''), Str (Plain ''b'')]"

text \<open>\<^verbatim>\<open>F(f"a{e}b")\<close> with \<^verbatim>\<open>e = ""\<close>: the part in the middle is empty.\<close>

definition ex_hollow :: fstr where
  "ex_hollow = F ''ab'' [Str (Plain ''a''), FValue ''e'' (VStr (Plain [])) (Plain []), Str (Plain ''b'')]"

text \<open>\<^verbatim>\<open>F(" ")\<close>, one of the strings \<^verbatim>\<open>test_strip\<close> strips to \<^verbatim>\<open>""\<close>.\<close>

definition ex_blank :: fstr where
  "ex_blank = F '' '' [Str (Plain '' '')]"

text \<open>
  \<^verbatim>\<open>F(f"{s:>5}")\<close> with \<^verbatim>\<open>s = F("hi")\<close>: the value of the part is the nested
  \<^verbatim>\<open>F\<close>, its formatted text is the padded \<^verbatim>\<open>"   hi"\<close>.
\<close>

definition ex_padded :: fstr where
  "ex_padded =
     F ''   hi'' [FValue ''s'' (VStr (Prov (F ''hi'' [Str (Plain ''hi'')]))) (Plain ''   hi'')]"

text \<open>
  \<^verbatim>\<open>h = F("hello ")\<close>, then \<^verbatim>\<open>h + "world"\<close> with the addition node found,
  then \<^verbatim>\<open>.lstrip("h")\<close> of the sum.
\<close>

definition ex_hello :: fstr where
  "ex_hello = F ''hello '' [Str (Plain ''hello '')]"

definition ex_hello_world :: fstr where
  "ex_hello_world =
     F ''hello world'' [FValue ''h'' (VStr (Prov ex_hello)) (Prov ex_hello), Str (Plain ''world'')]"

definition ex_ello_world :: fstr where
  "ex_ello_world =
     F ''ello world''
       [FValue ''h'' (VStr (Prov ex_hello)) (Prov (F ''ello '' [Str (Plain ''ello '')])),
        Str (Plain ''world'')]"

text \<open>
  The frame and the argument node of \<^verbatim>\<open>F(f"hello {(1) + 2}")\<close> in
  \<^verbatim>\<open>test_get_source_segment\<close>. The parentheses are not part of the tree, and
  \<^verbatim>\<open>ast.unparse\<close> renders the addition as \<^verbatim>\<open>1 + 2\<close>.
\<close>

definition one_plus_two :: expr where
  "one_plus_two = BinOp (Constant (CInt 1)) Add (Constant (CInt 2))"

definition segment_arg :: expr where
  "segment_arg = JoinedStr [Constant (CStr ''hello ''), FormattedValue one_plus_two (- 1) None]"

definition segment_frame :: frame where
  "segment_frame =
     \<lparr>ast_unparse = (\<lambda>e. if e = one_plus_two then ''1 + 2'' else ''<expr>''),
      eval_source = (\<lambda>src. if src = ''1 + 2'' then Inr (VInt 3) else Inl (Raised ''NameError'')),
      eval_joined = (\<lambda>e. if e = JoinedStr [FormattedValue one_plus_two (- 1) None]
                           then Inr ''3'' else Inl (Raised ''NameError''))\<rparr>"

text \<open>
  \<^verbatim>\<open>list(map(F, xs))\<close>: the constructor is called by \<^verbatim>\<open>map\<close>, and the node
  executing in the caller's frame is the call of \<^verbatim>\<open>list\<close>.
\<close>

definition map_call :: expr where
  "map_call = Call (Name ''map'') [Name ''F'', Name ''xs'']"

definition list_map_call :: expr where
  "list_map_call = Call (Name ''list'') [map_call]"

definition list_map_frame :: frame where
  "list_map_frame =
     \<lparr>ast_unparse = (\<lambda>e. if e = map_call then ''map(F, xs)'' else ''<expr>''),
      eval_source = (\<lambda>src. Inl (Raised ''NameError'')),
      eval_joined = (\<lambda>e. Inl (Raised ''NameError''))\<rparr>"

text \<open>
  Inside a function with the locals \<^verbatim>\<open>y = 10\<close> and \<^verbatim>\<open>a = F("hello ")\<close>:
  \<^verbatim>\<open>a + f"{(lambda: y)()}"\<close>. The right operand is \<^verbatim>\<open>"10"\<close>, but
  \<^verbatim>\<open>eval\<close> with the frame's globals and locals does not see \<^verbatim>\<open>y\<close> from inside
  the lambda and raises \<^verbatim>\<open>NameError\<close>. The call of the lambda is kept as an opaque
  expression.
\<close>

definition lambda_call :: expr where
  "lambda_call = Call (Name ''lambda: y'') []"

definition closure_add :: node where
  "closure_add = Expr (BinOp (Name ''a'') Add (JoinedStr [FormattedValue lambda_call (- 1) None]))"

definition closure_frame :: frame where
  "closure_frame =
     \<lparr>ast_unparse = (\<lambda>e. if e = lambda_call then ''(lambda: y)()'' else
                           case e of Name x \<Rightarrow> x | _ \<Rightarrow> ''<expr>''),
      eval_source = (\<lambda>src. if src = ''y'' then Inr (VInt 10) else Inl (Raised ''NameError'')),
      eval_joined = (\<lambda>e. Inl (Raised ''NameError''))\<rparr>"



section \<open>Facts about the constructor and the trimming loop\<close>

lemma F_parts_Inr: "F_parts s ps = Inr r \<Longrightarrow> r = F s ps \<and> s = concat (map part_text ps)"
  by (simp add: F_parts_def split: if_splits)

lemma F_parts_I1: "F_parts s ps = Inr r \<Longrightarrow> I1 r"
  by (auto simp: F_parts_def I1_def split: if_splits)

lemma py_index_0: "py_index ps 0 = (if ps = [] then None else Some 0)"
  by (simp add: py_index_def)

lemma py_index_last: "py_index ps (- 1) = (if ps = [] then None else Some (length ps - 1))"
  by (auto simp: py_index_def Let_def)

lemma strip_loop_Nil: "strip_loop i m a [] = Inl IndexError"
  by (simp add: strip_loop.simps py_index_def)

text \<open>One iteration of the loop at index 0, and at index -1.\<close>

lemma strip_loop_Cons:
  "strip_loop 0 m a (p # ps) =
     (case call_method m a (part_str p) of
        Inl err \<Rightarrow> Inl err
      | Inr s \<Rightarrow> if py_str s \<noteq> [] then Inr (replace_str p s # ps) else strip_loop 0 m a ps)"
  by (subst strip_loop.simps) (simp add: py_index_0 split: sum.splits)

lemma strip_loop_snoc:
  "strip_loop (- 1) m a (ps @ [p]) =
     (case call_method m a (part_str p) of
        Inl err \<Rightarrow> Inl err
      | Inr s \<Rightarrow> if py_str s \<noteq> [] then Inr (ps @ [replace_str p s]) else strip_loop (- 1) m a ps)"
  by (subst strip_loop.simps) (simp add: py_index_last split: sum.splits)

text \<open>Whatever kind of string the method is called on, the text it returns is the trimmed text.\<close>

lemma call_method_text:
  "call_method m a s = Inr s' \<Longrightarrow> py_str s' = str_method m a (py_str s)"
proof (cases s)
  case (Plain x)
  then show "call_method m a s = Inr s' \<Longrightarrow> ?thesis" by auto
next
  case (Prov f)
  obtain t ps where f: "f = F t ps" by (cases f)
  assume "call_method m a s = Inr s'"
  with Prov f show ?thesis
    by (cases m) (auto split: sum.splits dest!: F_parts_Inr)
qed

lemma part_text_replace_str: "part_text (replace_str p s) = py_str s"
  by (cases p) (simp_all add: part_text_def)

lemma replace_str_twice: "replace_str (replace_str p s) s' = replace_str p s'"
  by (cases p) simp_all

text \<open>Where a scan that returns has stopped, and what it returns.\<close>

lemma lscan_result:
  "strip_loop 0 m a ps = Inr qs \<Longrightarrow>
   \<exists>k s. k < length ps \<and> call_method m a (part_str (ps ! k)) = Inr s \<and> py_str s \<noteq> []
      \<and> qs = replace_str (ps ! k) s # drop (Suc k) ps"
proof (induction ps)
  case Nil
  then show ?case by (simp add: strip_loop_Nil)
next
  case (Cons p ps)
  from Cons.prems obtain s where s: "call_method m a (part_str p) = Inr s"
    by (auto simp: strip_loop_Cons split: sum.splits)
  show ?case
  proof (cases "py_str s = []")
    case False
    with s Cons.prems have "qs = replace_str p s # ps"
      by (simp add: strip_loop_Cons)
    with s False have "0 < length (p # ps) \<and> call_method m a (part_str ((p # ps) ! 0)) = Inr s
        \<and> py_str s \<noteq> [] \<and> qs = replace_str ((p # ps) ! 0) s # drop (Suc 0) (p # ps)"
      by simp
    then show ?thesis by blast
  next
    case True
    with s Cons.prems have "strip_loop 0 m a ps = Inr qs"
      by (simp add: strip_loop_Cons)
    then obtain k s' where "k < length ps" "call_method m a (part_str (ps ! k)) = Inr s'"
        "py_str s' \<noteq> []" "qs = replace_str (ps ! k) s' # drop (Suc k) ps"
      using Cons.IH by blast
    then have "Suc k < length (p # ps) \<and> call_method m a (part_str ((p # ps) ! Suc k)) = Inr s'
        \<and> py_str s' \<noteq> [] \<and> qs = replace_str ((p # ps) ! Suc k) s' # drop (Suc (Suc k)) (p # ps)"
      by simp
    then show ?thesis by blast
  qed
qed

lemma rscan_result:
  "strip_loop (- 1) m a ps = Inr qs \<Longrightarrow>
   \<exists>k s. k < length ps \<and> call_method m a (part_str (ps ! k)) = Inr s \<and> py_str s \<noteq> []
      \<and> qs = take k ps @ [replace_str (ps ! k) s]"
proof (induction ps rule: rev_induct)
  case Nil
  then show ?case by (simp add: strip_loop_Nil)
next
  case (snoc p ps)
  from snoc.prems obtain s where s: "call_method m a (part_str p) = Inr s"
    by (auto simp: strip_loop_snoc split: sum.splits)
  show ?case
  proof (cases "py_str s = []")
    case False
    with s snoc.prems have "qs = ps @ [replace_str p s]"
      by (simp add: strip_loop_snoc)
    with s False have "length ps < length (ps @ [p])
        \<and> call_method m a (part_str ((ps @ [p]) ! length ps)) = Inr s
        \<and> py_str s \<noteq> [] \<and> qs = take (length ps) (ps @ [p]) @ [replace_str ((ps @ [p]) ! length ps) s]"
      by simp
    then show ?thesis by blast
  next
    case True
    with s snoc.prems have "strip_loop (- 1) m a ps = Inr qs"
      by (simp add: strip_loop_snoc)
    then obtain k s' where k: "k < length ps" "call_method m a (part_str (ps ! k)) = Inr s'"
        "py_str s' \<noteq> []" "qs = take k ps @ [replace_str (ps ! k) s']"
      using snoc.IH by blast
    then have "k < length (ps @ [p]) \<and> call_method m a (part_str ((ps @ [p]) ! k)) = Inr s'
        \<and> py_str s' \<noteq> [] \<and> qs = take k (ps @ [p]) @ [replace_str ((ps @ [p]) ! k) s']"
      by (simp add: nth_append)
    then show ?thesis by blast
  qed
qed

text \<open>
  When the trimmed text of the whole is not empty the scan stops at some part, by a
  non-empty remainder or by the exception of the method called on that part.
\<close>

lemma lscan_stops:
  "str_method Lstrip a (concat (map part_text ps)) \<noteq> [] \<Longrightarrow>
   \<exists>k<length ps.
      (\<forall>j<k. \<exists>s. call_method Lstrip a (part_str (ps ! j)) = Inr s \<and> py_str s = [])
    \<and> (case call_method Lstrip a (part_str (ps ! k)) of
          Inl err \<Rightarrow> strip_loop 0 Lstrip a ps = Inl err
        | Inr s \<Rightarrow> py_str s \<noteq> []
            \<and> strip_loop 0 Lstrip a ps = Inr (replace_str (ps ! k) s # drop (Suc k) ps))"
proof (induction ps)
  case Nil
  then show ?case by simp
next
  case (Cons p ps)
  let ?stop = "\<lambda>qs k. (\<forall>j<k. \<exists>s. call_method Lstrip a (part_str (qs ! j)) = Inr s \<and> py_str s = [])
    \<and> (case call_method Lstrip a (part_str (qs ! k)) of
          Inl err \<Rightarrow> strip_loop 0 Lstrip a qs = Inl err
        | Inr s \<Rightarrow> py_str s \<noteq> []
            \<and> strip_loop 0 Lstrip a qs = Inr (replace_str (qs ! k) s # drop (Suc k) qs))"
  show ?case
  proof (cases "call_method Lstrip a (part_str p)")
    case (Inl err)
    then have "?stop (p # ps) 0" by (simp add: strip_loop_Cons)
    then show ?thesis by (intro exI [of _ 0]) simp
  next
    case (Inr s)
    show ?thesis
    proof (cases "py_str s = []")
      case False
      with Inr have "?stop (p # ps) 0" by (simp add: strip_loop_Cons)
      then show ?thesis by (intro exI [of _ 0]) simp
    next
      case True
      from Inr have "py_str s = str_method Lstrip a (part_text p)"
        by (simp add: call_method_text part_text_def)
      with True have "\<forall>c\<in>set (part_text p). trimmed a c" by simp
      then have "str_method Lstrip a (concat (map part_text (p # ps)))
          = str_method Lstrip a (concat (map part_text ps))"
        by simp
      with Cons.prems have "str_method Lstrip a (concat (map part_text ps)) \<noteq> []" by metis
      then obtain k where k: "k < length ps" "?stop ps k"
        using Cons.IH by blast
      have loop: "strip_loop 0 Lstrip a (p # ps) = strip_loop 0 Lstrip a ps"
        using Inr True by (simp add: strip_loop_Cons)
      have "\<forall>j<Suc k. \<exists>s. call_method Lstrip a (part_str ((p # ps) ! j)) = Inr s \<and> py_str s = []"
      proof (intro allI impI)
        fix j assume "j < Suc k"
        then show "\<exists>s. call_method Lstrip a (part_str ((p # ps) ! j)) = Inr s \<and> py_str s = []"
          using Inr True k(2) by (cases j) auto
      qed
      with k(2) loop have "?stop (p # ps) (Suc k)" by (simp split: sum.splits)
      with k(1) show ?thesis by (intro exI [of _ "Suc k"]) simp
    qed
  qed
qed

lemma rscan_stops:
  "str_method Rstrip a (concat (map part_text ps)) \<noteq> [] \<Longrightarrow>
   \<exists>k<length ps.
      (\<forall>j. k < j \<and> j < length ps \<longrightarrow>
          (\<exists>s. call_method Rstrip a (part_str (ps ! j)) = Inr s \<and> py_str s = []))
    \<and> (case call_method Rstrip a (part_str (ps ! k)) of
          Inl err \<Rightarrow> strip_loop (- 1) Rstrip a ps = Inl err
        | Inr s \<Rightarrow> py_str s \<noteq> []
            \<and> strip_loop (- 1) Rstrip a ps = Inr (take k ps @ [replace_str (ps ! k) s]))"
proof (induction ps rule: rev_induct)
  case Nil
  then show ?case by simp
next
  case (snoc p ps)
  let ?stop = "\<lambda>qs k. (\<forall>j. k < j \<and> j < length qs \<longrightarrow>
          (\<exists>s. call_method Rstrip a (part_str (qs ! j)) = Inr s \<and> py_str s = []))
    \<and> (case call_method Rstrip a (part_str (qs ! k)) of
          Inl err \<Rightarrow> strip_loop (- 1) Rstrip a qs = Inl err
        | Inr s \<Rightarrow> py_str s \<noteq> []
            \<and> strip_loop (- 1) Rstrip a qs = Inr (take k qs @ [replace_str (qs ! k) s]))"
  show ?case
  proof (cases "call_method Rstrip a (part_str p)")
    case (Inl err)
    then have "?stop (ps @ [p]) (length ps)" by (auto simp: strip_loop_snoc)
    then show ?thesis by (intro exI [of _ "length ps"]) simp
  next
    case (Inr s)
    show ?thesis
    proof (cases "py_str s = []")
      case False
      with Inr have "?stop (ps @ [p]) (length ps)" by (auto simp: strip_loop_snoc)
      then show ?thesis by (intro exI [of _ "length ps"]) simp
    next
      case True
      from Inr have "py_str s = str_method Rstrip a (part_text p)"
        by (simp add: call_method_text part_text_def)
      with True have "\<forall>c\<in>set (part_text p). trimmed a c" by simp
      then have "str_method Rstrip a (concat (map part_text (ps @ [p])))
          = str_method Rstrip a (concat (map part_text ps))"
        by (simp add: dropWhile_append)
      with snoc.prems have "str_method Rstrip a (concat (map part_text ps)) \<noteq> []" by metis
      then obtain k where k: "k < length ps" "?stop ps k"
        using snoc.IH by blast
      have loop: "strip_loop (- 1) Rstrip a (ps @ [p]) = strip_loop (- 1) Rstrip a ps"
        using Inr True by (simp add: strip_loop_snoc)
      have "\<forall>j. k < j \<and> j < length (ps @ [p]) \<longrightarrow>
          (\<exists>s. call_method Rstrip a (part_str ((ps @ [p]) ! j)) = Inr s \<and> py_str s = [])"
      proof (intro allI impI)
        fix j assume j: "k < j \<and> j < length (ps @ [p])"
        show "\<exists>s. call_method Rstrip a (part_str ((ps @ [p]) ! j)) = Inr s \<and> py_str s = []"
        proof (cases "j = length ps")
          case True
          with Inr \<open>py_str s = []\<close> show ?thesis by simp
        next
          case False
          with j have "j < length ps" by simp
          with j k(2) show ?thesis by (simp add: nth_append)
        qed
      qed
      with k loop have "?stop (ps @ [p]) k" by (simp add: nth_append split: sum.splits)
      with k(1) show ?thesis by (intro exI [of _ k]) simp
    qed
  qed
qed

text \<open>The parts a scan returns spell the trimmed text.\<close>

lemma lscan_text:
  "strip_loop 0 Lstrip a ps = Inr qs \<Longrightarrow>
   concat (map part_text qs) = str_method Lstrip a (concat (map part_text ps))"
proof (induction ps)
  case Nil
  then show ?case by (simp add: strip_loop_Nil)
next
  case (Cons p ps)
  from Cons.prems obtain s where s: "call_method Lstrip a (part_str p) = Inr s"
    by (auto simp: strip_loop_Cons split: sum.splits)
  then have tx: "py_str s = dropWhile (trimmed a) (part_text p)"
    by (simp add: call_method_text part_text_def)
  show ?case
  proof (cases "py_str s = []")
    case False
    with s Cons.prems have qs: "qs = replace_str p s # ps"
      by (simp add: strip_loop_Cons)
    from False tx obtain c where "c \<in> set (part_text p)" "\<not> trimmed a c" by auto
    then have "dropWhile (trimmed a) (part_text p @ concat (map part_text ps))
        = dropWhile (trimmed a) (part_text p) @ concat (map part_text ps)"
      by (rule dropWhile_append1)
    with qs tx show ?thesis by (simp add: part_text_replace_str)
  next
    case True
    with s Cons.prems have "strip_loop 0 Lstrip a ps = Inr qs"
      by (simp add: strip_loop_Cons)
    then have "concat (map part_text qs) = str_method Lstrip a (concat (map part_text ps))"
      by (rule Cons.IH)
    moreover from True tx have "\<forall>c\<in>set (part_text p). trimmed a c" by simp
    ultimately show ?thesis by (simp add: dropWhile_append)
  qed
qed

lemma rscan_text:
  "strip_loop (- 1) Rstrip a ps = Inr qs \<Longrightarrow>
   concat (map part_text qs) = str_method Rstrip a (concat (map part_text ps))"
proof (induction ps rule: rev_induct)
  case Nil
  then show ?case by (simp add: strip_loop_Nil)
next
  case (snoc p ps)
  from snoc.prems obtain s where s: "call_method Rstrip a (part_str p) = Inr s"
    by (auto simp: strip_loop_snoc split: sum.splits)
  then have tx: "py_str s = rev (dropWhile (trimmed a) (rev (part_text p)))"
    by (simp add: call_method_text part_text_def)
  show ?case
  proof (cases "py_str s = []")
    case False
    with s snoc.prems have qs: "qs = ps @ [replace_str p s]"
      by (simp add: strip_loop_snoc)
    from False tx obtain c where "c \<in> set (rev (part_text p))" "\<not> trimmed a c" by auto
    then have "dropWhile (trimmed a) (rev (part_text p) @ rev (concat (map part_text ps)))
        = dropWhile (trimmed a) (rev (part_text p)) @ rev (concat (map part_text ps))"
      by (rule dropWhile_append1)
    with qs tx show ?thesis by (simp add: part_text_replace_str)
  next
    case True
    with s snoc.prems have "strip_loop (- 1) Rstrip a ps = Inr qs"
      by (simp add: strip_loop_snoc)
    then have "concat (map part_text qs) = str_method Rstrip a (concat (map part_text ps))"
      by (rule snoc.IH)
    moreover from True tx have "\<forall>c\<in>set (part_text p). trimmed a c" by simp
    ultimately show ?thesis by (simp add: dropWhile_append)
  qed
qed

lemma lstrip_returns:
  "I1 f \<Longrightarrow> strip_loop 0 Lstrip a (parts f) = Inr qs \<Longrightarrow>
   lstrip a f = Inr (F (str_method Lstrip a (F_str f)) qs)"
  using lscan_text [of a "parts f" qs]
  by (cases f) (simp add: lstrip_def I1_def F_parts_def)

lemma rstrip_returns:
  "I1 f \<Longrightarrow> strip_loop (- 1) Rstrip a (parts f) = Inr qs \<Longrightarrow>
   rstrip a f = Inr (F (str_method Rstrip a (F_str f)) qs)"
  using rscan_text [of a "parts f" qs]
  by (cases f) (simp add: rstrip_def I1_def F_parts_def)

lemma lstrip_raises:
  "strip_loop 0 Lstrip a (parts f) = Inl err \<Longrightarrow> lstrip a f = Inl err"
  by (cases f) (simp add: lstrip_def)

lemma rstrip_raises:
  "strip_loop (- 1) Rstrip a (parts f) = Inl err \<Longrightarrow> rstrip a f = Inl err"
  by (cases f) (simp add: rstrip_def)

lemma lstrip_Inr:
  "lstrip a f = Inr r \<Longrightarrow>
   \<exists>qs. strip_loop 0 Lstrip a (parts f) = Inr qs \<and> r = F (str_method Lstrip a (F_str f)) qs
     \<and> I1 r"
  by (cases f) (auto simp: lstrip_def split: sum.splits dest: F_parts_Inr F_parts_I1)

lemma rstrip_Inr:
  "rstrip a f = Inr r \<Longrightarrow>
   \<exists>qs. strip_loop (- 1) Rstrip a (parts f) = Inr qs \<and> r = F (str_method Rstrip a (F_str f)) qs
     \<and> I1 r"
  by (cases f) (auto simp: rstrip_def split: sum.splits dest: F_parts_Inr F_parts_I1)

lemma strip_Inr:
  "strip a f = Inr r \<Longrightarrow> \<exists>g. lstrip a f = Inr g \<and> rstrip a g = Inr r"
  by (auto simp: strip_def split: sum.splits)

text \<open>The parts of the result, in terms of the parts of the argument.\<close>

lemma lstrip_frame:
  assumes "lstrip a f = Inr r"
  shows "\<exists>k s. k < length (parts f) \<and> py_str s = str_method Lstrip a (part_text (parts f ! k))
      \<and> py_str s \<noteq> [] \<and> parts r = replace_str (parts f ! k) s # drop (Suc k) (parts f)"
proof -
  from assms obtain qs where qs: "strip_loop 0 Lstrip a (parts f) = Inr qs" "parts r = qs"
    using lstrip_Inr [of a f r] by auto
  then obtain k s where k: "k < length (parts f)"
      "call_method Lstrip a (part_str (parts f ! k)) = Inr s" "py_str s \<noteq> []"
      "qs = replace_str (parts f ! k) s # drop (Suc k) (parts f)"
    using lscan_result [of Lstrip a "parts f" qs] by blast
  from k(2) have "py_str s = str_method Lstrip a (part_text (parts f ! k))"
    unfolding part_text_def by (rule call_method_text)
  with k qs(2) show ?thesis by blast
qed

lemma rstrip_frame:
  assumes "rstrip a f = Inr r"
  shows "\<exists>k s. k < length (parts f) \<and> py_str s = str_method Rstrip a (part_text (parts f ! k))
      \<and> py_str s \<noteq> [] \<and> parts r = take k (parts f) @ [replace_str (parts f ! k) s]"
proof -
  from assms obtain qs where qs: "strip_loop (- 1) Rstrip a (parts f) = Inr qs" "parts r = qs"
    using rstrip_Inr [of a f r] by auto
  then obtain k s where k: "k < length (parts f)"
      "call_method Rstrip a (part_str (parts f ! k)) = Inr s" "py_str s \<noteq> []"
      "qs = take k (parts f) @ [replace_str (parts f ! k) s]"
    using rscan_result [of Rstrip a "parts f" qs] by blast
  from k(2) have "py_str s = str_method Rstrip a (part_text (parts f ! k))"
    unfolding part_text_def by (rule call_method_text)
  with k qs(2) show ?thesis by blast
qed

lemma strip_frame:
  assumes "strip a f = Inr r"
  shows "\<exists>i k s1 s2. i \<le> k \<and> k < length (parts f)
      \<and> py_str s1 = str_method Lstrip a (part_text (parts f ! i)) \<and> py_str s1 \<noteq> []
      \<and> py_str s2 \<noteq> []
      \<and> (if i = k
          then py_str s2 = str_method Rstrip a (py_str s1)
             \<and> parts r = [replace_str (parts f ! i) s2]
          else py_str s2 = str_method Rstrip a (part_text (parts f ! k))
             \<and> parts r = replace_str (parts f ! i) s1
                 # take (k - Suc i) (drop (Suc i) (parts f)) @ [replace_str (parts f ! k) s2])"
proof -
  from assms obtain g where g: "lstrip a f = Inr g" "rstrip a g = Inr r"
    using strip_Inr by blast
  let ?ps = "parts f"
  from g(1) obtain i s1 where i: "i < length ?ps"
      "py_str s1 = str_method Lstrip a (part_text (?ps ! i))" "py_str s1 \<noteq> []"
      "parts g = replace_str (?ps ! i) s1 # drop (Suc i) ?ps"
    using lstrip_frame by blast
  from g(2) obtain n s2 where n: "n < length (parts g)"
      "py_str s2 = str_method Rstrip a (part_text (parts g ! n))" "py_str s2 \<noteq> []"
      "parts r = take n (parts g) @ [replace_str (parts g ! n) s2]"
    using rstrip_frame by blast
  show ?thesis
  proof (cases n)
    case 0
    with n i have "py_str s2 = str_method Rstrip a (py_str s1)"
        "parts r = [replace_str (?ps ! i) s2]"
      by (simp_all add: part_text_replace_str replace_str_twice)
    with i n(3) have "i \<le> i \<and> i < length ?ps
      \<and> py_str s1 = str_method Lstrip a (part_text (?ps ! i)) \<and> py_str s1 \<noteq> []
      \<and> py_str s2 \<noteq> []
      \<and> (if i = i
          then py_str s2 = str_method Rstrip a (py_str s1)
             \<and> parts r = [replace_str (?ps ! i) s2]
          else py_str s2 = str_method Rstrip a (part_text (?ps ! i))
             \<and> parts r = replace_str (?ps ! i) s1
                 # take (i - Suc i) (drop (Suc i) ?ps) @ [replace_str (?ps ! i) s2])"
      by simp
    then show ?thesis by blast
  next
    case (Suc n')
    let ?k = "Suc i + n'"
    from Suc n(1) i(4) have k: "?k < length ?ps" by simp
    from Suc i(4) k have nth: "parts g ! n = ?ps ! ?k" by simp
    from Suc i(4) have tk: "take n (parts g) = replace_str (?ps ! i) s1 # take n' (drop (Suc i) ?ps)"
      by simp
    from n nth tk i k have "i \<le> ?k \<and> ?k < length ?ps
      \<and> py_str s1 = str_method Lstrip a (part_text (?ps ! i)) \<and> py_str s1 \<noteq> []
      \<and> py_str s2 \<noteq> []
      \<and> (if i = ?k
          then py_str s2 = str_method Rstrip a (py_str s1)
             \<and> parts r = [replace_str (?ps ! i) s2]
          else py_str s2 = str_method Rstrip a (part_text (?ps ! ?k))
             \<and> parts r = replace_str (?ps ! i) s1
                 # take (?k - Suc i) (drop (Suc i) ?ps) @ [replace_str (?ps ! ?k) s2])"
      by simp
    then show ?thesis by blast
  qed
qed

lemma lstrip_boundary:
  assumes "lstrip a f = Inr r"
  shows "parts r \<noteq> [] \<and> part_text (hd (parts r)) \<noteq> []"
  using lstrip_frame [OF assms] by (auto simp: part_text_replace_str)

lemma rstrip_boundary:
  assumes "rstrip a f = Inr r"
  shows "parts r \<noteq> [] \<and> part_text (last (parts r)) \<noteq> []"
  using rstrip_frame [OF assms] by (auto simp: part_text_replace_str)

lemma strip_boundary:
  assumes "strip a f = Inr r"
  shows "parts r \<noteq> [] \<and> part_text (hd (parts r)) \<noteq> [] \<and> part_text (last (parts r)) \<noteq> []"
proof -
  from strip_frame [OF assms] obtain i k s1 s2 where h: "py_str s1 \<noteq> []" "py_str s2 \<noteq> []"
     "if i = k
          then py_str s2 = str_method Rstrip a (py_str s1)
             \<and> parts r = [replace_str (parts f ! i) s2]
          else py_str s2 = str_method Rstrip a (part_text (parts f ! k))
             \<and> parts r = replace_str (parts f ! i) s1
                 # take (k - Suc i) (drop (Suc i) (parts f)) @ [replace_str (parts f ! k) s2]"
    by blast
  then show ?thesis
    by (cases "i = k") (auto simp: part_text_replace_str)
qed

text \<open>
  The whole call, when the string satisfies I1 and its trimmed text is not empty: the
  scan stops inside the list, and the call returns unless the method called on the part
  where it stops raises.
\<close>

lemma lstrip_scan:
  assumes "I1 f" and "str_method Lstrip a (F_str f) \<noteq> []"
  shows "\<exists>k<length (parts f).
               (\<forall>j<k. \<exists>s. call_method Lstrip a (part_str (parts f ! j)) = Inr s \<and> py_str s = [])
             \<and> (case call_method Lstrip a (part_str (parts f ! k)) of
                   Inl err \<Rightarrow> strip_loop 0 Lstrip a (parts f) = Inl err \<and> lstrip a f = Inl err
                 | Inr s \<Rightarrow> py_str s \<noteq> []
                     \<and> strip_loop 0 Lstrip a (parts f)
                         = Inr (replace_str (parts f ! k) s # drop (Suc k) (parts f))
                     \<and> lstrip a f = Inr (F (str_method Lstrip a (F_str f))
                           (replace_str (parts f ! k) s # drop (Suc k) (parts f))))"
proof -
  from assms have "str_method Lstrip a (concat (map part_text (parts f))) \<noteq> []"
    by (simp add: I1_def)
  then obtain k where k: "k < length (parts f)"
      "\<forall>j<k. \<exists>s. call_method Lstrip a (part_str (parts f ! j)) = Inr s \<and> py_str s = []"
      "case call_method Lstrip a (part_str (parts f ! k)) of
          Inl err \<Rightarrow> strip_loop 0 Lstrip a (parts f) = Inl err
        | Inr s \<Rightarrow> py_str s \<noteq> []
            \<and> strip_loop 0 Lstrip a (parts f)
                = Inr (replace_str (parts f ! k) s # drop (Suc k) (parts f))"
    using lscan_stops [of a "parts f"] by blast
  from k(3) assms(1) have "case call_method Lstrip a (part_str (parts f ! k)) of
       Inl err \<Rightarrow> strip_loop 0 Lstrip a (parts f) = Inl err \<and> lstrip a f = Inl err
     | Inr s \<Rightarrow> py_str s \<noteq> []
         \<and> strip_loop 0 Lstrip a (parts f)
             = Inr (replace_str (parts f ! k) s # drop (Suc k) (parts f))
         \<and> lstrip a f = Inr (F (str_method Lstrip a (F_str f))
               (replace_str (parts f ! k) s # drop (Suc k) (parts f)))"
    by (auto split: sum.splits simp: lstrip_raises lstrip_returns)
  with k(1,2) show ?thesis
    by blast
qed

lemma rstrip_scan:
  assumes "I1 f" and "str_method Rstrip a (F_str f) \<noteq> []"
  shows "\<exists>k<length (parts f).
               (\<forall>j. k < j \<and> j < length (parts f) \<longrightarrow>
                  (\<exists>s. call_method Rstrip a (part_str (parts f ! j)) = Inr s \<and> py_str s = []))
             \<and> (case call_method Rstrip a (part_str (parts f ! k)) of
                   Inl err \<Rightarrow> strip_loop (- 1) Rstrip a (parts f) = Inl err \<and> rstrip a f = Inl err
                 | Inr s \<Rightarrow> py_str s \<noteq> []
                     \<and> strip_loop (- 1) Rstrip a (parts f)
                         = Inr (take k (parts f) @ [replace_str (parts f ! k) s])
                     \<and> rstrip a f = Inr (F (str_method Rstrip a (F_str f))
                           (take k (parts f) @ [replace_str (parts f ! k) s])))"
proof -
  from assms have "str_method Rstrip a (concat (map part_text (parts f))) \<noteq> []"
    by (simp add: I1_def)
  then obtain k where k: "k < length (parts f)"
      "\<forall>j. k < j \<and> j < length (parts f) \<longrightarrow>
          (\<exists>s. call_method Rstrip a (part_str (parts f ! j)) = Inr s \<and> py_str s = [])"
      "case call_method Rstrip a (part_str (parts f ! k)) of
          Inl err \<Rightarrow> strip_loop (- 1) Rstrip a (parts f) = Inl err
        | Inr s \<Rightarrow> py_str s \<noteq> []
            \<and> strip_loop (- 1) Rstrip a (parts f)
                = Inr (take k (parts f) @ [replace_str (parts f ! k) s])"
    using rscan_stops [of a "parts f"] by blast
  from k(3) assms(1) have "case call_method Rstrip a (part_str (parts f ! k)) of
       Inl err \<Rightarrow> strip_loop (- 1) Rstrip a (parts f) = Inl err \<and> rstrip a f = Inl err
     | Inr s \<Rightarrow> py_str s \<noteq> []
         \<and> strip_loop (- 1) Rstrip a (parts f)
             = Inr (take k (parts f) @ [replace_str (parts f ! k) s])
         \<and> rstrip a f = Inr (F (str_method Rstrip a (F_str f))
               (take k (parts f) @ [replace_str (parts f ! k) s]))"
    by (auto split: sum.splits simp: rstrip_raises rstrip_returns)
  with k(1,2) show ?thesis
    by blast
qed

section \<open>Strings without nested provenance strings\<close>

lemma plain_part_str: "plain_part p \<Longrightarrow> \<exists>x. part_str p = Plain x"
  by (cases p rule: plain_part.cases) simp_all

lemma call_method_plain:
  "plain_part p \<Longrightarrow> \<exists>x. call_method m a (part_str p) = Inr (Plain x)"
  using plain_part_str [of p] by auto

lemma plain_replace_str: "plain_part p \<Longrightarrow> plain_part (replace_str p (Plain x))"
  by (cases p rule: plain_part.cases) simp_all

text \<open>
  When no part holds an \<^verbatim>\<open>F\<close> and the trimmed text is not empty, the call returns
  and its text is the trimmed text.
\<close>

lemma lstrip_plain_returns:
  assumes "I1 f" and "str_method Lstrip a (F_str f) \<noteq> []" and "\<forall>p\<in>set (parts f). plain_part p"
  shows "\<exists>r. lstrip a f = Inr r \<and> F_str r = str_method Lstrip a (F_str f)
           \<and> (\<forall>p\<in>set (parts r). plain_part p)"
proof -
  from lstrip_scan [OF assms(1,2)]
  obtain k where k: "k < length (parts f)"
    "case call_method Lstrip a (part_str (parts f ! k)) of
       Inl err \<Rightarrow> strip_loop 0 Lstrip a (parts f) = Inl err \<and> lstrip a f = Inl err
     | Inr s \<Rightarrow> py_str s \<noteq> []
         \<and> strip_loop 0 Lstrip a (parts f)
             = Inr (replace_str (parts f ! k) s # drop (Suc k) (parts f))
         \<and> lstrip a f = Inr (F (str_method Lstrip a (F_str f))
               (replace_str (parts f ! k) s # drop (Suc k) (parts f)))"
    by blast
  from k(1) assms(3) have pk: "plain_part (parts f ! k)" by simp
  then obtain x where x: "call_method Lstrip a (part_str (parts f ! k)) = Inr (Plain x)"
    using call_method_plain by blast
  with k(2) have r: "lstrip a f = Inr (F (str_method Lstrip a (F_str f))
               (replace_str (parts f ! k) (Plain x) # drop (Suc k) (parts f)))"
    by simp
  have "\<forall>p\<in>set (replace_str (parts f ! k) (Plain x) # drop (Suc k) (parts f)). plain_part p"
    using pk assms(3) by (auto simp: plain_replace_str dest: in_set_dropD)
  with r show ?thesis by simp
qed

lemma rstrip_plain_returns:
  assumes "I1 f" and "str_method Rstrip a (F_str f) \<noteq> []" and "\<forall>p\<in>set (parts f). plain_part p"
  shows "\<exists>r. rstrip a f = Inr r \<and> F_str r = str_method Rstrip a (F_str f)
           \<and> (\<forall>p\<in>set (parts r). plain_part p)"
proof -
  from rstrip_scan [OF assms(1,2)]
  obtain k where k: "k < length (parts f)"
    "case call_method Rstrip a (part_str (parts f ! k)) of
       Inl err \<Rightarrow> strip_loop (- 1) Rstrip a (parts f) = Inl err \<and> rstrip a f = Inl err
     | Inr s \<Rightarrow> py_str s \<noteq> []
         \<and> strip_loop (- 1) Rstrip a (parts f)
             = Inr (take k (parts f) @ [replace_str (parts f ! k) s])
         \<and> rstrip a f = Inr (F (str_method Rstrip a (F_str f))
               (take k (parts f) @ [replace_str (parts f ! k) s]))"
    by blast
  from k(1) assms(3) have pk: "plain_part (parts f ! k)" by simp
  then obtain x where x: "call_method Rstrip a (part_str (parts f ! k)) = Inr (Plain x)"
    using call_method_plain by blast
  with k(2) have r: "rstrip a f = Inr (F (str_method Rstrip a (F_str f))
               (take k (parts f) @ [replace_str (parts f ! k) (Plain x)]))"
    by simp
  have "\<forall>p\<in>set (take k (parts f) @ [replace_str (parts f ! k) (Plain x)]). plain_part p"
    using pk assms(3) by (auto simp: plain_replace_str dest: in_set_takeD)
  with r show ?thesis by simp
qed

lemma strip_text:
  "strip a f = Inr r \<Longrightarrow> F_str r = str_method Rstrip a (str_method Lstrip a (F_str f))"
  using strip_Inr [of a f r] lstrip_Inr [of a f] rstrip_Inr [of a _ r] by fastforce

lemma strip_plain_returns:
  assumes "I1 f" and "str_method Rstrip a (str_method Lstrip a (F_str f)) \<noteq> []"
    and "\<forall>p\<in>set (parts f). plain_part p"
  shows "\<exists>r. strip a f = Inr r
           \<and> F_str r = str_method Rstrip a (str_method Lstrip a (F_str f))"
proof -
  have "str_method Rstrip a [] = []" by simp
  with assms(2) have "str_method Lstrip a (F_str f) \<noteq> []" by metis
  with assms(1,3) obtain g where g: "lstrip a f = Inr g"
      "F_str g = str_method Lstrip a (F_str f)" "\<forall>p\<in>set (parts g). plain_part p"
    using lstrip_plain_returns by blast
  from g(1) have "I1 g" using lstrip_Inr by blast
  moreover from g(2) assms(2) have "str_method Rstrip a (F_str g) \<noteq> []" by simp
  ultimately obtain r where "rstrip a g = Inr r" "F_str r = str_method Rstrip a (F_str g)"
    using g(3) rstrip_plain_returns by blast
  with g(1,2) show ?thesis by (simp add: strip_def)
qed

section \<open>Facts about \<^verbatim>\<open>flatten\<close>\<close>

lemma flatten_I1: "flatten f = Inr r \<Longrightarrow> I1 r"
  by (cases f) (auto split: sum.splits dest: F_parts_I1)

lemma flatten_text: "flatten f = Inr r \<Longrightarrow> F_str r = F_str f"
  by (cases f) (auto split: sum.splits dest: F_parts_Inr)

text \<open>A result of \<^verbatim>\<open>flatten\<close> has no nested part, and flattening it again changes nothing.\<close>

lemma flatten_flat: "flatten f = Inr r \<Longrightarrow> \<forall>p\<in>set (parts r). \<not> nested p"
  and flatten_parts_flat: "flatten_parts ps = Inr qs \<Longrightarrow> \<forall>p\<in>set qs. \<not> nested p"
proof (induction f and ps arbitrary: r and qs rule: flatten_flatten_parts.induct)
  case (1 s ps)
  then show ?case by (auto split: sum.splits dest!: F_parts_Inr)
qed (auto split: sum.splits)

lemma flatten_parts_of_flat:
  "\<forall>p\<in>set ps. \<not> nested p \<Longrightarrow> flatten_parts ps = Inr ps"
proof (induction ps)
  case Nil
  then show ?case by simp
next
  case (Cons p ps)
  then have "flatten_parts ps = Inr ps" "\<not> nested p" by simp_all
  then show ?case by (cases p rule: nested.cases) simp_all
qed

lemma flatten_idem: "flatten f = Inr r \<Longrightarrow> flatten r = Inr r"
proof -
  assume a: "flatten f = Inr r"
  then have "\<forall>p\<in>set (parts r). \<not> nested p" by (rule flatten_flat)
  then have "flatten_parts (parts r) = Inr (parts r)" by (rule flatten_parts_of_flat)
  moreover from a have "I1 r" by (rule flatten_I1)
  ultimately show ?thesis by (cases r) (simp add: I1_def F_parts_def)
qed

section \<open>Facts about the decomposer\<close>

lemma parts_from_node_literal:
  "parts_from_node fr (Constant (CStr s)) v = Inr [Str (Plain s)]"
  by simp

lemma parts_from_values_append:
  "parts_from_values fr (xs @ ys) =
     (case parts_from_values fr xs of
        Inl err \<Rightarrow> Inl err
      | Inr ps \<Rightarrow>
         (case parts_from_values fr ys of
            Inl err \<Rightarrow> Inl err
          | Inr qs \<Rightarrow> Inr (ps @ qs)))"
  by (induction xs) (auto split: sum.splits)

text \<open>
  The source of an embedded expression is \<^verbatim>\<open>ast.unparse\<close> of its \<^verbatim>\<open>value\<close>
  node, a function of the tree alone; conversion and format specifier only enter the
  formatted text.
\<close>

lemma parts_from_node_formatted:
  "parts_from_node fr (FormattedValue e conv spec) v =
     (case eval_source fr (ast_unparse fr e) of
        Inl err \<Rightarrow> Inl err
      | Inr val \<Rightarrow>
         (case eval_joined fr (JoinedStr [FormattedValue e conv spec]) of
            Inl err \<Rightarrow> Inl err
          | Inr formatted \<Rightarrow> Inr [FValue (ast_unparse fr e) val (Plain formatted)]))"
  by (simp add: Let_def)

section \<open>Every result satisfies I1\<close>

lemma strip_I1: "strip a f = Inr r \<Longrightarrow> I1 r"
  using strip_Inr [of a f r] rstrip_Inr [of a _ r] by blast

lemma F_add_I1: "F_add fr nd f other is_left = Inr r \<Longrightarrow> I1 r"
  by (auto simp: F_add_def Let_def split: prod.splits option.splits sum.splits dest: F_parts_I1)

lemma F_new_I1: "snd (F_new fr nd x given) = Inr r \<Longrightarrow> I1 r"
  by (auto simp: F_new_def
      split: option.splits node.splits expr.splits list.splits sum.splits
      dest: F_parts_I1)

section \<open>The guard of the constructor\<close>

text \<open>A node that is not a call node makes the constructor raise \<^verbatim>\<open>TypeError\<close>.\<close>

lemma F_new_not_a_call:
  "\<not> is_call n \<Longrightarrow> F_new fr (Some n) s None = ([], Inl TypeError)"
proof (cases n)
  case (Expr e)
  assume "\<not> is_call n"
  with Expr show ?thesis
    by (cases e) (simp_all add: F_new_def)
next
  case (AugAssign target op v)
  then show ?thesis by (simp add: F_new_def)
next
  case OtherStmt
  then show ?thesis by (simp add: F_new_def)
qed

section \<open>The claims\<close>

subsection \<open>C1\<close>

text \<open>
  C1. Every operation builds its result with the explicit-parts constructor, so a
  result that is returned satisfies I1: the text is the concatenation of the displayed
  texts of the parts. This holds for the constructor with explicit parts and with
  parts derived from the source, for \<^verbatim>\<open>flatten\<close>, \<^verbatim>\<open>lstrip\<close>, \<^verbatim>\<open>rstrip\<close>,
  \<^verbatim>\<open>strip\<close> and for concatenation. With explicit parts the constructor returns
  exactly when the parts spell the text, and raises \<^verbatim>\<open>AssertionError\<close> when they
  do not.
\<close>

theorem C1_reconstruction:
  "F_new fr nd x (Some ps)
     = ([], if py_str x = concat (map part_text ps) then Inr (F (py_str x) ps)
            else Inl AssertionError)
   \<and> (snd (F_new fr nd x given) = Inr r1 \<longrightarrow> I1 r1)
   \<and> (flatten f = Inr r2 \<longrightarrow> I1 r2)
   \<and> (lstrip a f = Inr r3 \<longrightarrow> I1 r3)
   \<and> (rstrip a f = Inr r4 \<longrightarrow> I1 r4)
   \<and> (strip a f = Inr r5 \<longrightarrow> I1 r5)
   \<and> (F_add fr nd f other is_left = Inr r6 \<longrightarrow> I1 r6)"
proof -
  have "F_new fr nd x (Some ps)
     = ([], if py_str x = concat (map part_text ps) then Inr (F (py_str x) ps)
            else Inl AssertionError)"
    by (simp add: F_new_def F_parts_def)
  moreover have "snd (F_new fr nd x given) = Inr r1 \<longrightarrow> I1 r1"
    using F_new_I1 by blast
  moreover have "flatten f = Inr r2 \<longrightarrow> I1 r2"
    using flatten_I1 by blast
  moreover have "lstrip a f = Inr r3 \<longrightarrow> I1 r3"
    using lstrip_Inr by blast
  moreover have "rstrip a f = Inr r4 \<longrightarrow> I1 r4"
    using rstrip_Inr by blast
  moreover have "strip a f = Inr r5 \<longrightarrow> I1 r5"
    using strip_I1 by blast
  moreover have "F_add fr nd f other is_left = Inr r6 \<longrightarrow> I1 r6"
    using F_add_I1 by blast
  ultimately show ?thesis by blast
qed

theorem C1_reconstruction_witness:
  "F_new empty_frame (Some (Expr (Call (Name ''F'') [Constant (CStr ''hello'')])))
       (Plain ''hello'') (Some [Str (Plain ''hell'')])
     = ([], Inl AssertionError)
   \<and> snd (F_new empty_frame (Some (Expr (Call (Name ''F'') [Constant (CStr ''hello'')])))
           (Plain ''hello'') None)
     = Inr (F ''hello'' [Str (Plain ''hello'')])
   \<and> I1 (F ''hello'' [Str (Plain ''hello'')])
   \<and> flatten ex_spaced = Inr ex_spaced \<and> I1 ex_spaced
   \<and> lstrip None ex_spaced = Inr ex_spaced_lstrip \<and> I1 ex_spaced_lstrip
   \<and> rstrip None ex_spaced = Inr ex_spaced_rstrip \<and> I1 ex_spaced_rstrip
   \<and> strip None ex_spaced = Inr ex_spaced_strip \<and> I1 ex_spaced_strip
   \<and> F_add empty_frame (Some (Expr (Call (Name ''F'') [Constant (CStr ''hello'')])))
         ex_spaced_strip (Plain ''!'') True
     = Inr (F ''hello!'' [Str (Prov ex_spaced_strip), Str (Plain ''!'')])
   \<and> I1 (F ''hello!'' [Str (Prov ex_spaced_strip), Str (Plain ''!'')])"
proof -
  let ?nd = "Some (Expr (Call (Name ''F'') [Constant (CStr ''hello'')]))"
  have n: "snd (F_new empty_frame ?nd (Plain ''hello'') None)
      = Inr (F ''hello'' [Str (Plain ''hello'')])"
    by code_simp
  have f: "flatten ex_spaced = Inr ex_spaced" by code_simp
  have l: "lstrip None ex_spaced = Inr ex_spaced_lstrip" by code_simp
  have r: "rstrip None ex_spaced = Inr ex_spaced_rstrip" by code_simp
  have b: "strip None ex_spaced = Inr ex_spaced_strip" by code_simp
  have c: "F_add empty_frame ?nd ex_spaced_strip (Plain ''!'') True
      = Inr (F ''hello!'' [Str (Prov ex_spaced_strip), Str (Plain ''!'')])"
    by code_simp
  have e: "py_str (Plain ''hello'') \<noteq> concat (map part_text [Str (Plain ''hell'')])"
    by (simp add: part_text_def)
  from C1_reconstruction [of empty_frame ?nd "Plain ''hello''" "[Str (Plain ''hell'')]"]
  have "F_new empty_frame ?nd (Plain ''hello'') (Some [Str (Plain ''hell'')])
      = ([], Inl AssertionError)"
    using e by simp
  moreover from C1_reconstruction
      [of empty_frame ?nd "Plain ''hello''" _ None "F ''hello'' [Str (Plain ''hello'')]"
          ex_spaced ex_spaced None ex_spaced_lstrip ex_spaced_rstrip ex_spaced_strip]
    n f l r b
  have "I1 (F ''hello'' [Str (Plain ''hello'')]) \<and> I1 ex_spaced \<and> I1 ex_spaced_lstrip
      \<and> I1 ex_spaced_rstrip \<and> I1 ex_spaced_strip"
    by blast
  moreover from C1_reconstruction
      [of empty_frame ?nd _ _ _ _ ex_spaced_strip _ _ _ _ _ "Plain ''!''" True
          "F ''hello!'' [Str (Prov ex_spaced_strip), Str (Plain ''!'')]"]
    c
  have "I1 (F ''hello!'' [Str (Prov ex_spaced_strip), Str (Plain ''!'')])"
    by blast
  ultimately show ?thesis using n f l r b c by blast
qed

subsection \<open>C2\<close>

text \<open>
  C2 fails inside the string. The loop looks at boundary parts only, and a part that
  is not at the boundary is never examined: \<^verbatim>\<open>F(f"a{e}b")\<close> with \<^verbatim>\<open>e = ""\<close> is
  returned as it is by \<^verbatim>\<open>strip\<close>, \<^verbatim>\<open>lstrip\<close> and \<^verbatim>\<open>rstrip\<close>, with
  non-empty text and its empty part in the middle.
\<close>

theorem C2_interior_part_stays_empty:
  "strip None ex_hollow = Inr ex_hollow \<and> lstrip None ex_hollow = Inr ex_hollow
   \<and> rstrip None ex_hollow = Inr ex_hollow
   \<and> F_str ex_hollow \<noteq> [] \<and> part_text (parts ex_hollow ! 1) = []"
  by code_simp

text \<open>
  C2, as the code has it. Whenever one of the three methods returns a result whose
  text is not empty, the result has a part, and its boundary part has non-empty
  displayed text: the first part after \<^verbatim>\<open>lstrip\<close>, the last part after
  \<^verbatim>\<open>rstrip\<close>, both after \<^verbatim>\<open>strip\<close>.
\<close>

theorem C2_boundary_parts_nonempty:
  "(lstrip a f = Inr r1 \<and> F_str r1 \<noteq> [] \<longrightarrow>
      parts r1 \<noteq> [] \<and> part_text (hd (parts r1)) \<noteq> [])
   \<and> (rstrip a f = Inr r2 \<and> F_str r2 \<noteq> [] \<longrightarrow>
      parts r2 \<noteq> [] \<and> part_text (last (parts r2)) \<noteq> [])
   \<and> (strip a f = Inr r3 \<and> F_str r3 \<noteq> [] \<longrightarrow>
      parts r3 \<noteq> [] \<and> part_text (hd (parts r3)) \<noteq> [] \<and> part_text (last (parts r3)) \<noteq> [])"
  using lstrip_boundary [of a f r1] rstrip_boundary [of a f r2] strip_boundary [of a f r3]
  by blast

theorem C2_boundary_parts_nonempty_witness:
  "lstrip None ex_spaced = Inr ex_spaced_lstrip \<and> F_str ex_spaced_lstrip \<noteq> []
   \<and> rstrip None ex_spaced = Inr ex_spaced_rstrip \<and> F_str ex_spaced_rstrip \<noteq> []
   \<and> strip None ex_spaced = Inr ex_spaced_strip \<and> F_str ex_spaced_strip \<noteq> []
   \<and> parts ex_spaced_lstrip \<noteq> [] \<and> part_text (hd (parts ex_spaced_lstrip)) \<noteq> []
   \<and> parts ex_spaced_rstrip \<noteq> [] \<and> part_text (last (parts ex_spaced_rstrip)) \<noteq> []
   \<and> parts ex_spaced_strip \<noteq> [] \<and> part_text (hd (parts ex_spaced_strip)) \<noteq> []
   \<and> part_text (last (parts ex_spaced_strip)) \<noteq> []"
proof -
  have l: "lstrip None ex_spaced = Inr ex_spaced_lstrip" by code_simp
  have r: "rstrip None ex_spaced = Inr ex_spaced_rstrip" by code_simp
  have b: "strip None ex_spaced = Inr ex_spaced_strip" by code_simp
  have ne: "F_str ex_spaced_lstrip \<noteq> []" "F_str ex_spaced_rstrip \<noteq> []"
      "F_str ex_spaced_strip \<noteq> []"
    by (simp_all add: ex_spaced_lstrip_def ex_spaced_rstrip_def ex_spaced_strip_def)
  from C2_boundary_parts_nonempty
      [of None ex_spaced ex_spaced_lstrip ex_spaced_rstrip ex_spaced_strip]
    l r b ne show ?thesis
    by blast
qed

subsection \<open>C3\<close>

text \<open>
  C3 fails where the decomposition of an operand raises: the concatenation then returns
  nothing, although both operands are strings. In \<^verbatim>\<open>a + f"{(lambda: y)()}"\<close> inside
  a function the right operand has been computed, the addition node is found, and
  evaluating the embedded expression again with \<^verbatim>\<open>eval\<close> raises \<^verbatim>\<open>NameError\<close>.
\<close>

theorem C3_precise_path_raises:
  "add_operands (Some closure_add)
     = Some (Name ''a'', JoinedStr [FormattedValue lambda_call (- 1) None])
   \<and> F_add closure_frame (Some closure_add) ex_hello (Plain ''10'') True
       = Inl (Raised ''NameError'')"
  by code_simp

text \<open>
  C3, as the code has it. Concatenation, for \<^verbatim>\<open>__add__\<close> (\<open>is_left\<close>) and
  \<^verbatim>\<open>__radd__\<close>, with \<open>p0\<close> the left and \<open>p1\<close> the right operand: for
  \<^verbatim>\<open>__add__\<close> the left operand is \<^verbatim>\<open>self\<close>, for \<^verbatim>\<open>__radd__\<close> it is
  \<^verbatim>\<open>other\<close>. Without an addition node the fallback always returns: the text is the
  left text followed by the right text and the parts are the two operands, left then
  right. With an addition node the call returns when the decompositions of the two
  operand nodes succeed and spell that text. Whenever the call returns, on either path,
  the text is the left text followed by the right text; on the precise path the parts
  are the decomposition of the left operand node followed by that of the right operand
  node, each with its own operand as the known value.
\<close>

theorem C3_add_text_and_order:
  assumes "operands self other is_left = (p0, p1)"
  shows "(p0, p1) = (if is_left then (Prov self, other) else (other, Prov self))
   \<and> (add_operands nd = None \<longrightarrow>
        F_add fr nd self other is_left = Inr (F (py_str p0 @ py_str p1) [Str p0, Str p1]))
   \<and> (\<forall>left_node right_node left_parts right_parts.
          add_operands nd = Some (left_node, right_node)
        \<and> parts_from_node fr left_node (Some p0) = Inr left_parts
        \<and> parts_from_node fr right_node (Some p1) = Inr right_parts
        \<and> concat (map part_text (left_parts @ right_parts)) = py_str p0 @ py_str p1
        \<longrightarrow> F_add fr nd self other is_left
              = Inr (F (py_str p0 @ py_str p1) (left_parts @ right_parts)))
   \<and> (F_add fr nd self other is_left = Inr r \<longrightarrow>
        F_str r = py_str p0 @ py_str p1
      \<and> (\<forall>left_node right_node. add_operands nd = Some (left_node, right_node) \<longrightarrow>
            (\<exists>left_parts right_parts.
               parts_from_node fr left_node (Some p0) = Inr left_parts
             \<and> parts_from_node fr right_node (Some p1) = Inr right_parts
             \<and> parts r = left_parts @ right_parts)))"
proof (intro conjI impI allI)
  from assms show "(p0, p1) = (if is_left then (Prov self, other) else (other, Prov self))"
    by (simp add: operands_def)
next
  assume "add_operands nd = None"
  with assms show "F_add fr nd self other is_left
      = Inr (F (py_str p0 @ py_str p1) [Str p0, Str p1])"
    by (simp add: F_add_def F_parts_def part_text_def)
next
  fix left_node right_node left_parts right_parts
  assume "add_operands nd = Some (left_node, right_node)
        \<and> parts_from_node fr left_node (Some p0) = Inr left_parts
        \<and> parts_from_node fr right_node (Some p1) = Inr right_parts
        \<and> concat (map part_text (left_parts @ right_parts)) = py_str p0 @ py_str p1"
  with assms show "F_add fr nd self other is_left
      = Inr (F (py_str p0 @ py_str p1) (left_parts @ right_parts))"
    by (simp add: F_add_def F_parts_def)
next
  assume "F_add fr nd self other is_left = Inr r"
  with assms show "F_str r = py_str p0 @ py_str p1"
    by (auto simp: F_add_def Let_def split: option.splits sum.splits dest!: F_parts_Inr)
next
  fix left_node right_node
  assume "F_add fr nd self other is_left = Inr r"
    and "add_operands nd = Some (left_node, right_node)"
  with assms show "\<exists>left_parts right_parts.
               parts_from_node fr left_node (Some p0) = Inr left_parts
             \<and> parts_from_node fr right_node (Some p1) = Inr right_parts
             \<and> parts r = left_parts @ right_parts"
    by (auto simp: F_add_def Let_def split: sum.splits dest!: F_parts_Inr)
qed

text \<open>
  An instance, for \<^verbatim>\<open>s = F("hello")\<close>: \<^verbatim>\<open>s + "!"\<close> without a node,
  \<^verbatim>\<open>s += "!"\<close> and \<^verbatim>\<open>"!" + s\<close> with the addition node found.
\<close>

theorem C3_add_text_and_order_witness:
  "operands ex_spaced_strip (Plain ''!'') True = (Prov ex_spaced_strip, Plain ''!'')
   \<and> operands ex_spaced_strip (Plain ''!'') False = (Plain ''!'', Prov ex_spaced_strip)
   \<and> F_add empty_frame None ex_spaced_strip (Plain ''!'') True
     = Inr (F (py_str (Prov ex_spaced_strip) @ py_str (Plain ''!''))
             [Str (Prov ex_spaced_strip), Str (Plain ''!'')])
   \<and> F_add empty_frame (Some (AugAssign (Name ''s'') Add (Constant (CStr ''!''))))
         ex_spaced_strip (Plain ''!'') True
     = Inr (F (py_str (Prov ex_spaced_strip) @ py_str (Plain ''!''))
             ([FValue ''s'' (VStr (Prov ex_spaced_strip)) (Prov ex_spaced_strip)]
              @ [Str (Plain ''!'')]))
   \<and> F_add empty_frame (Some (Expr (BinOp (Constant (CStr ''!'')) Add (Name ''s''))))
         ex_spaced_strip (Plain ''!'') False
     = Inr (F ''!hello''
             [Str (Plain ''!''),
              FValue ''s'' (VStr (Prov ex_spaced_strip)) (Prov ex_spaced_strip)])
   \<and> F_str (F ''!hello''
             [Str (Plain ''!''),
              FValue ''s'' (VStr (Prov ex_spaced_strip)) (Prov ex_spaced_strip)])
     = py_str (Plain ''!'') @ py_str (Prov ex_spaced_strip)"
proof -
  let ?aug = "Some (AugAssign (Name ''s'') Add (Constant (CStr ''!'')))"
  let ?bin = "Some (Expr (BinOp (Constant (CStr ''!'')) Add (Name ''s'')))"
  let ?r = "F ''!hello''
             [Str (Plain ''!''),
              FValue ''s'' (VStr (Prov ex_spaced_strip)) (Prov ex_spaced_strip)]"
  have l: "operands ex_spaced_strip (Plain ''!'') True = (Prov ex_spaced_strip, Plain ''!'')"
    by (simp add: operands_def)
  have r: "operands ex_spaced_strip (Plain ''!'') False = (Plain ''!'', Prov ex_spaced_strip)"
    by (simp add: operands_def)
  have none: "add_operands None = None" by simp
  have aug: "add_operands ?aug = Some (Name ''s'', Constant (CStr ''!''))" by simp
  have lp: "parts_from_node empty_frame (Name ''s'') (Some (Prov ex_spaced_strip))
      = Inr [FValue ''s'' (VStr (Prov ex_spaced_strip)) (Prov ex_spaced_strip)]"
    by (simp add: empty_frame_def)
  have rp: "parts_from_node empty_frame (Constant (CStr ''!'')) (Some (Plain ''!''))
      = Inr [Str (Plain ''!'')]"
    by simp
  have sp: "concat (map part_text
        ([FValue ''s'' (VStr (Prov ex_spaced_strip)) (Prov ex_spaced_strip)] @ [Str (Plain ''!'')]))
      = py_str (Prov ex_spaced_strip) @ py_str (Plain ''!'')"
    by (simp add: part_text_def)
  have b: "F_add empty_frame ?bin ex_spaced_strip (Plain ''!'') False = Inr ?r"
    by code_simp
  from C3_add_text_and_order [OF l, of None empty_frame] none
  have "F_add empty_frame None ex_spaced_strip (Plain ''!'') True
     = Inr (F (py_str (Prov ex_spaced_strip) @ py_str (Plain ''!''))
             [Str (Prov ex_spaced_strip), Str (Plain ''!'')])"
    by blast
  moreover from C3_add_text_and_order [OF l, of ?aug empty_frame] aug lp rp sp
  have "F_add empty_frame ?aug ex_spaced_strip (Plain ''!'') True
     = Inr (F (py_str (Prov ex_spaced_strip) @ py_str (Plain ''!''))
             ([FValue ''s'' (VStr (Prov ex_spaced_strip)) (Prov ex_spaced_strip)]
              @ [Str (Plain ''!'')]))"
    by blast
  moreover from C3_add_text_and_order [OF r, of ?bin empty_frame ?r] b
  have "F_str ?r = py_str (Plain ''!'') @ py_str (Prov ex_spaced_strip)"
    by blast
  ultimately show ?thesis using l r b by blast
qed

subsection \<open>C4\<close>

text \<open>
  C4 at \<^verbatim>\<open>F(f"{s:>5}")\<close> with \<^verbatim>\<open>s = F("hi")\<close>. The string satisfies I1.
  \<^verbatim>\<open>flatten\<close> replaces the part by the parts of its value, which spell
  \<^verbatim>\<open>"hi"\<close> and not the formatted \<^verbatim>\<open>"   hi"\<close>, and the constructor it calls on the
  unchanged text raises \<^verbatim>\<open>AssertionError\<close>: no flattened string is returned. The
  same happens to a string the operations themselves build:
  \<^verbatim>\<open>(h + "world").lstrip("h").flatten()\<close> with \<^verbatim>\<open>h = F("hello ")\<close>.
\<close>

theorem C4_flatten_raises:
  "I1 ex_padded \<and> flatten ex_padded = Inl AssertionError
   \<and> F_add empty_frame (Some (Expr (BinOp (Name ''h'') Add (Constant (CStr ''world'')))))
         ex_hello (Plain ''world'') True
       = Inr ex_hello_world
   \<and> lstrip (Some ''h'') ex_hello_world = Inr ex_ello_world
   \<and> flatten ex_ello_world = Inl AssertionError"
  by code_simp

subsection \<open>C5\<close>

text \<open>
  C5 at \<^verbatim>\<open>F(" ")\<close>, a string of \<^verbatim>\<open>test_strip\<close>: every character is trimmed, the
  loop deletes the only part and evaluates \<^verbatim>\<open>parts[index]\<close> on the empty list. All
  three methods raise \<^verbatim>\<open>IndexError\<close>, where the built-in \<^verbatim>\<open>strip\<close> of the text
  is the empty string.
\<close>

theorem C5_all_trimmable_raises:
  "strip None ex_blank = Inl IndexError
   \<and> lstrip None ex_blank = Inl IndexError
   \<and> rstrip None ex_blank = Inl IndexError
   \<and> str_method Rstrip None (str_method Lstrip None (F_str ex_blank)) = []"
  by code_simp

subsection \<open>C6\<close>

text \<open>
  C6 at \<^verbatim>\<open>F(f"hello {(1) + 2}")\<close> of \<^verbatim>\<open>test_get_source_segment\<close>. The source
  of the part is \<^verbatim>\<open>ast.unparse\<close> of the sub-expression node, here \<^verbatim>\<open>1 + 2\<close>, not
  the text \<^verbatim>\<open>(1) + 2\<close> that was written: the tree of \<^verbatim>\<open>(1) + 2\<close> and of
  \<^verbatim>\<open>1 + (2)\<close> is the same \<^verbatim>\<open>BinOp\<close>, so the source is the same for both.
\<close>

theorem C6_source_is_unparsed_text:
  "parts_from_node segment_frame segment_arg None
     = Inr [Str (Plain ''hello ''), FValue ''1 + 2'' (VInt 3) (Plain ''3'')]
   \<and> F_new segment_frame (Some (Expr (Call (Name ''F'') [segment_arg]))) (Plain ''hello 3'') None
     = ([], Inr (F ''hello 3'' [Str (Plain ''hello ''), FValue ''1 + 2'' (VInt 3) (Plain ''3'')]))"
  by code_simp

subsection \<open>C7\<close>

text \<open>
  C7. The parts of the result of \<^verbatim>\<open>lstrip\<close>, \<^verbatim>\<open>rstrip\<close> and \<^verbatim>\<open>strip\<close>. The
  scan stops at a part \<open>k\<close> whose trimmed text \<open>s\<close> is not empty; the result holds that
  part rebuilt around \<open>s\<close>, and the parts on the other side of it unchanged (for
  \<^verbatim>\<open>strip\<close>: the rebuilt parts \<open>i\<close> and \<open>k\<close> and the parts between them unchanged, or
  the one part trimmed on both sides). Rebuilding an \<^verbatim>\<open>FValue\<close> changes its
  \<^verbatim>\<open>formatted\<close> field only: \<^verbatim>\<open>source\<close> and \<^verbatim>\<open>value\<close> are the original's.
\<close>

theorem C7_trim_changes_formatted_only:
  "(lstrip a f = Inr r1 \<longrightarrow>
      (\<exists>k s. k < length (parts f) \<and> py_str s = str_method Lstrip a (part_text (parts f ! k))
         \<and> py_str s \<noteq> [] \<and> parts r1 = replace_str (parts f ! k) s # drop (Suc k) (parts f)))
   \<and> (rstrip a f = Inr r2 \<longrightarrow>
      (\<exists>k s. k < length (parts f) \<and> py_str s = str_method Rstrip a (part_text (parts f ! k))
         \<and> py_str s \<noteq> [] \<and> parts r2 = take k (parts f) @ [replace_str (parts f ! k) s]))
   \<and> (strip a f = Inr r3 \<longrightarrow>
      (\<exists>i k s1 s2. i \<le> k \<and> k < length (parts f)
         \<and> py_str s1 = str_method Lstrip a (part_text (parts f ! i)) \<and> py_str s1 \<noteq> []
         \<and> py_str s2 \<noteq> []
         \<and> (if i = k
             then py_str s2 = str_method Rstrip a (py_str s1)
                \<and> parts r3 = [replace_str (parts f ! i) s2]
             else py_str s2 = str_method Rstrip a (part_text (parts f ! k))
                \<and> parts r3 = replace_str (parts f ! i) s1
                    # take (k - Suc i) (drop (Suc i) (parts f)) @ [replace_str (parts f ! k) s2])))
   \<and> replace_str (FValue source v formatted) s = FValue source v s"
  using lstrip_frame [of a f r1] rstrip_frame [of a f r2] strip_frame [of a f r3]
  by simp

theorem C7_trim_changes_formatted_only_witness:
  "lstrip None ex_ab = Inr ex_ab_lstrip
   \<and> rstrip None ex_ab = Inr ex_ab_rstrip
   \<and> strip None ex_ab = Inr ex_ab_strip
   \<and> (\<exists>k s. k < length (parts ex_ab)
         \<and> py_str s = str_method Lstrip None (part_text (parts ex_ab ! k)) \<and> py_str s \<noteq> []
         \<and> parts ex_ab_lstrip = replace_str (parts ex_ab ! k) s # drop (Suc k) (parts ex_ab))
   \<and> (\<exists>k s. k < length (parts ex_ab)
         \<and> py_str s = str_method Rstrip None (part_text (parts ex_ab ! k)) \<and> py_str s \<noteq> []
         \<and> parts ex_ab_rstrip = take k (parts ex_ab) @ [replace_str (parts ex_ab ! k) s])
   \<and> (\<exists>i k s1 s2. i \<le> k \<and> k < length (parts ex_ab)
         \<and> py_str s1 = str_method Lstrip None (part_text (parts ex_ab ! i)) \<and> py_str s1 \<noteq> []
         \<and> py_str s2 \<noteq> []
         \<and> (if i = k
             then py_str s2 = str_method Rstrip None (py_str s1)
                \<and> parts ex_ab_strip = [replace_str (parts ex_ab ! i) s2]
             else py_str s2 = str_method Rstrip None (part_text (parts ex_ab ! k))
                \<and> parts ex_ab_strip = replace_str (parts ex_ab ! i) s1
                      # take (k - Suc i) (drop (Suc i) (parts ex_ab))
                      @ [replace_str (parts ex_ab ! k) s2]))"
proof -
  have l: "lstrip None ex_ab = Inr ex_ab_lstrip" by code_simp
  have r: "rstrip None ex_ab = Inr ex_ab_rstrip" by code_simp
  have b: "strip None ex_ab = Inr ex_ab_strip" by code_simp
  from C7_trim_changes_formatted_only [of None ex_ab ex_ab_lstrip ex_ab_rstrip ex_ab_strip]
    l r b show ?thesis
    by blast
qed

subsection \<open>C8\<close>

text \<open>
  C8. Construction without explicit parts when the resolver finds no node: the call
  does not fail, it emits exactly one warning and returns the string whose only part is
  the literal \<^verbatim>\<open>s\<close>. The warning the code emits has Python's default category
  \<^verbatim>\<open>UserWarning\<close>; it is not a \<^verbatim>\<open>NoSourceAvailableWarning\<close>.
\<close>

theorem C8_no_node_warns_UserWarning:
  "F_new fr None s None =
     ([(UserWarning, ''Couldn't get source node of F() call'')],
      Inr (F (py_str s) [Str s]))"
  by (simp add: F_new_def F_parts_def part_text_def)

subsection \<open>C9\<close>

text \<open>
  C9 at \<^verbatim>\<open>list(map(F, xs))\<close>. The constructor is not invoked directly: \<^verbatim>\<open>map\<close>
  calls it, and the node executing in the caller's frame is the call of \<^verbatim>\<open>list\<close>.
  That node is a call node, so the guard lets it through; its one argument, the
  expression \<^verbatim>\<open>map(F, xs)\<close>, is decomposed as if it were the argument of \<^verbatim>\<open>F\<close>,
  and the constructor returns a string whose part names \<^verbatim>\<open>map(F, xs)\<close> as the
  source of the text, instead of raising. A node that is not a call node does make the
  constructor raise \<^verbatim>\<open>TypeError\<close>.
\<close>

theorem C9_wrapped_call_is_accepted:
  "\<not> is_call (Expr (BinOp (Name ''F'') Add (Name ''x'')))
   \<and> F_new empty_frame (Some (Expr (BinOp (Name ''F'') Add (Name ''x'')))) (Plain ''ab'') None
       = ([], Inl TypeError)
   \<and> is_call (Expr list_map_call)
   \<and> F_new list_map_frame (Some (Expr list_map_call)) (Plain ''a'') None
       = ([], Inr (F ''a'' [FValue ''map(F, xs)'' (VStr (Plain ''a'')) (Plain ''a'')]))"
  by code_simp

subsection \<open>C10\<close>




end
